theory Spec2Isabelle
  imports Main "HOL-Library.Word" "HOL-Library.Sublist"
begin

unbundle bit_operations_syntax

section \<open>The DNS query probe (dns.c)\<close>

subsection \<open>Frames and the packet loads\<close>

text \<open>
  The probe sees a socket buffer: the bytes of the frame and the packet-type classifier
  kept beside them (\<^verbatim>\<open>skb->pkt_type\<close>).
\<close>

record sk_buff =
  data :: "8 word list"
  pkt_type :: "32 word"

text \<open>
  \<^verbatim>\<open>load_byte\<close> and \<^verbatim>\<open>load_half\<close> are the LLVM builtins for the
  \<^verbatim>\<open>BPF_LD_ABS\<close> instructions. The instruction reads the frame at an absolute offset
  and delivers the value in host byte order (a half word is read big-endian from the wire).
  A read that does not lie inside the frame ends the program at once with return value 0;
  that outcome is \<open>None\<close> here.
\<close>

definition load_byte :: "sk_buff \<Rightarrow> nat \<Rightarrow> 8 word option" where
  "load_byte skb off = (if off < length (data skb) then Some (data skb ! off) else None)"

definition load_half :: "sk_buff \<Rightarrow> nat \<Rightarrow> 16 word option" where
  "load_half skb off =
     (if off + 2 \<le> length (data skb)
      then Some (push_bit 8 (ucast (data skb ! off)) OR ucast (data skb ! (off + 1)))
      else None)"

text \<open>
  \<^verbatim>\<open>bpf_skb_load_bytes(skb, off, to, len)\<close> copies \<open>len\<close> bytes of the frame into the
  buffer \<open>to\<close>. When the range is not inside the frame the helper clears the \<open>len\<close>
  bytes of the buffer and returns \<^verbatim>\<open>-EFAULT\<close>; the program goes on (the probe ignores
  the return value).
\<close>

definition bpf_skb_load_bytes :: "sk_buff \<Rightarrow> nat \<Rightarrow> 8 word list \<Rightarrow> nat \<Rightarrow> int \<times> 8 word list" where
  "bpf_skb_load_bytes skb off to len =
     (if off + len \<le> length (data skb)
      then (0, take len (drop off (data skb)) @ drop len to)
      else (- 14, replicate len 0 @ drop len to))"

text \<open>
  Every packet access of a run is recorded, in program order, so that claims about what
  the probe reads can be stated.
\<close>

datatype access = Ld_Byte nat | Ld_Half nat | Ld_Bytes nat nat

type_synonym 'a traced = "access list \<times> 'a option"

definition ret0 :: "'a traced" where
  "ret0 = ([], None)"

definition ld_byte :: "sk_buff \<Rightarrow> nat \<Rightarrow> (8 word \<Rightarrow> 'a traced) \<Rightarrow> 'a traced" where
  "ld_byte skb off k =
     (case load_byte skb off of
        None \<Rightarrow> ([Ld_Byte off], None)
      | Some v \<Rightarrow> (case k v of (t, r) \<Rightarrow> (Ld_Byte off # t, r)))"

definition ld_half :: "sk_buff \<Rightarrow> nat \<Rightarrow> (16 word \<Rightarrow> 'a traced) \<Rightarrow> 'a traced" where
  "ld_half skb off k =
     (case load_half skb off of
        None \<Rightarrow> ([Ld_Half off], None)
      | Some v \<Rightarrow> (case k v of (t, r) \<Rightarrow> (Ld_Half off # t, r)))"

definition ld_bytes ::
  "sk_buff \<Rightarrow> nat \<Rightarrow> 8 word list \<Rightarrow> nat \<Rightarrow> (8 word list \<Rightarrow> 'a traced) \<Rightarrow> 'a traced" where
  "ld_bytes skb off to len k =
     (case k (snd (bpf_skb_load_bytes skb off to len)) of (t, r) \<Rightarrow> (Ld_Bytes off len # t, r))"

subsection \<open>Header offsets and constants\<close>

definition ETH_HLEN :: nat where "ETH_HLEN = 14"
definition sizeof_iphdr :: nat where "sizeof_iphdr = 20"
definition sizeof_udphdr :: nat where "sizeof_udphdr = 8"
definition sizeof_dnshdr :: nat where "sizeof_dnshdr = 12"

definition DNS_OFF :: nat where
  "DNS_OFF = ETH_HLEN + sizeof_iphdr + sizeof_udphdr"

definition ETH_P_IP :: "16 word" where "ETH_P_IP = 0x0800"
definition IPPROTO_UDP :: "8 word" where "IPPROTO_UDP = 17"

text \<open>Field offsets: \<^verbatim>\<open>offsetof(struct ethhdr, h_proto)\<close>, \<^verbatim>\<open>offsetof(struct iphdr, protocol)\<close>
  and the fields of \<^verbatim>\<open>struct dnshdr\<close>.\<close>

definition off_h_proto :: nat where "off_h_proto = 12"
definition off_protocol :: nat where "off_protocol = 9"
definition off_flags :: nat where "off_flags = 2"
definition off_qdcount :: nat where "off_qdcount = 4"
definition off_ancount :: nat where "off_ancount = 6"
definition off_nscount :: nat where "off_nscount = 8"

subsection \<open>The flags union\<close>

text \<open>
  \<^verbatim>\<open>union dnsflags\<close> overlays a \<^verbatim>\<open>__u16 flags\<close> with a struct of bit-fields of
  two bytes. The union is kept as its two bytes in address order. The layout is that of
  the little-endian BPF target (\<^verbatim>\<open>bpfel\<close>), for which the gadget is built on x86-64 and
  arm64: a store to \<^verbatim>\<open>flags\<close> puts the low byte of the half word first, and bit-fields
  fill a byte from its least significant bit in the order of their declaration. The first
  byte holds \<^verbatim>\<open>rd\<close> (bit 0), \<^verbatim>\<open>tc\<close>, \<^verbatim>\<open>aa\<close>, \<^verbatim>\<open>opcode\<close> (bits 3 to 6) and
  \<^verbatim>\<open>qr\<close> (bit 7); the second byte holds \<^verbatim>\<open>rcode\<close>, \<^verbatim>\<open>z\<close> and \<^verbatim>\<open>ra\<close> (bit 7).
  \<open>set_flags\<close> is the assignment \<^verbatim>\<open>flags.flags = v\<close>, \<open>qr\<close> and \<open>ra\<close> read the
  bit-fields of these names.
\<close>

record dnsflags =
  byte0 :: "8 word"
  byte1 :: "8 word"

definition set_flags :: "16 word \<Rightarrow> dnsflags" where
  "set_flags v = \<lparr>byte0 = ucast v, byte1 = ucast (drop_bit 8 v)\<rparr>"

definition qr :: "dnsflags \<Rightarrow> bool" where
  "qr u = bit (byte0 u) 7"

definition ra :: "dnsflags \<Rightarrow> bool" where
  "ra u = bit (byte1 u) 7"

subsection \<open>The event\<close>

text \<open>
  \<^verbatim>\<open>struct event_t\<close> and \<^verbatim>\<open>MAX_DNS_NAME\<close> are declared in \<^verbatim>\<open>dns-common.h\<close>. The
  name buffer has \<^verbatim>\<open>MAX_DNS_NAME\<close> bytes; the constant is the parameter \<open>M\<close> of every
  definition below. The packet type has the width of \<^verbatim>\<open>skb->pkt_type\<close>, the query type
  that of the half word stored in it. \<^verbatim>\<open>struct event_t event = {0,}\<close> is
  \<open>zero_event M\<close>.
\<close>

record event_t =
  name :: "8 word list"
  ev_pkt_type :: "32 word"
  qtype :: "16 word"

definition zero_event :: "nat \<Rightarrow> event_t" where
  "zero_event M = \<lparr>name = replicate M 0, ev_pkt_type = 0, qtype = 0\<rparr>"

subsection \<open>The label traversal\<close>

text \<open>
  The \<^verbatim>\<open>for\<close> loop of \<^verbatim>\<open>bpf_prog1\<close>, from the loop state \<open>(i, skip)\<close>. The result
  holds the number of times the loop body ran, the packet reads in order, and the value
  of \<open>i\<close> after the loop (\<open>None\<close> when a read fell outside the frame).
\<close>

function label_loop :: "nat \<Rightarrow> sk_buff \<Rightarrow> nat \<Rightarrow> nat \<Rightarrow> nat \<times> access list \<times> nat option" where
  "label_loop M skb i skip =
     (if i < M then
        (if skip \<noteq> 0 then
           (case label_loop M skb (i + 1) (skip - 1) of (n, t, r) \<Rightarrow> (n + 1, t, r))
         else
           (case load_byte skb (DNS_OFF + sizeof_dnshdr + i) of
              None \<Rightarrow> (1, [Ld_Byte (DNS_OFF + sizeof_dnshdr + i)], None)
            | Some label_len \<Rightarrow>
                if label_len = 0 then (1, [Ld_Byte (DNS_OFF + sizeof_dnshdr + i)], Some i)
                else (case label_loop M skb (i + 1) (unat label_len) of
                        (n, t, r) \<Rightarrow> (n + 1, Ld_Byte (DNS_OFF + sizeof_dnshdr + i) # t, r))))
      else (0, [], Some i))"
  by pat_completeness auto
termination
  by (relation "measure (\<lambda>(M, skb, i, skip). M - i)") auto

declare label_loop.simps [simp del]

definition traverse :: "nat \<Rightarrow> sk_buff \<Rightarrow> (nat \<Rightarrow> 'a traced) \<Rightarrow> 'a traced" where
  "traverse M skb k =
     (case label_loop M skb 0 0 of
        (n, t, None) \<Rightarrow> (t, None)
      | (n, t, Some i) \<Rightarrow> (case k i of (t', r) \<Rightarrow> (t @ t', r)))"

subsection \<open>The probe\<close>

text \<open>\<^verbatim>\<open>__u32 len = i < MAX_DNS_NAME ? i : MAX_DNS_NAME\<close>.\<close>

definition capped_len :: "nat \<Rightarrow> nat \<Rightarrow> nat" where
  "capped_len M i = (if i < M then i else M)"

text \<open>
  \<^verbatim>\<open>bpf_prog1\<close> gives the packet reads of the run, in order, and the event handed to
  \<^verbatim>\<open>bpf_perf_event_output\<close>, if any. Every path returns 0. The function is written in
  two parts: \<open>capture\<close> is the code after the validation chain (the traversal, the
  copy of the name, the query type and the output), \<open>bpf_prog1\<close> the chain before it.
\<close>

definition capture :: "nat \<Rightarrow> sk_buff \<Rightarrow> event_t traced" where
  "capture M skb =
     traverse M skb (\<lambda>i.
     let len = capped_len M i in
     (if len > 0 then ld_bytes skb (DNS_OFF + sizeof_dnshdr) (name (zero_event M)) len
      else (\<lambda>k. k (name (zero_event M)))) (\<lambda>nm.
     ld_half skb (DNS_OFF + sizeof_dnshdr + len + 1) (\<lambda>q.
     ([], Some ((zero_event M)\<lparr>name := nm, ev_pkt_type := pkt_type skb, qtype := q\<rparr>)))))"

definition bpf_prog1 :: "nat \<Rightarrow> sk_buff \<Rightarrow> event_t traced" where
  "bpf_prog1 M skb =
     ld_half skb off_h_proto (\<lambda>h_proto.
     if h_proto \<noteq> ETH_P_IP then ret0 else
     ld_byte skb (ETH_HLEN + off_protocol) (\<lambda>protocol.
     if protocol \<noteq> IPPROTO_UDP then ret0 else
     ld_half skb (DNS_OFF + off_flags) (\<lambda>v.
     if qr (set_flags v) then ret0 else
     ld_half skb (DNS_OFF + off_qdcount) (\<lambda>qdcount.
     if qdcount \<noteq> 1 then ret0 else
     ld_half skb (DNS_OFF + off_ancount) (\<lambda>ancount.
     if ancount \<noteq> 0 then ret0 else
     ld_half skb (DNS_OFF + off_nscount) (\<lambda>nscount.
     if nscount \<noteq> 0 then ret0 else
     capture M skb))))))"

definition dns_loads :: "nat \<Rightarrow> sk_buff \<Rightarrow> access list" where
  "dns_loads M skb = fst (bpf_prog1 M skb)"

definition dns_event :: "nat \<Rightarrow> sk_buff \<Rightarrow> event_t option" where
  "dns_event M skb = snd (bpf_prog1 M skb)"

text \<open>The captured name length of a run: \<open>len\<close> after the loop, when the loop ends.\<close>

definition name_len :: "nat \<Rightarrow> sk_buff \<Rightarrow> nat option" where
  "name_len M skb = map_option (capped_len M) (snd (snd (label_loop M skb 0 0)))"

text \<open>
  The probe run on a sequence of frames: the channel holds the events in the order of their
  output.
\<close>

fun run_frames :: "nat \<Rightarrow> event_t list \<Rightarrow> sk_buff list \<Rightarrow> event_t list" where
  "run_frames M ch [] = ch"
| "run_frames M ch (skb # skbs) =
     run_frames M (case dns_event M skb of None \<Rightarrow> ch | Some ev \<Rightarrow> ch @ [ev]) skbs"

subsection \<open>Notions of the specification\<close>

text \<open>
  The frame passes the validation chain: each of the six tests of \<^verbatim>\<open>bpf_prog1\<close> reads
  inside the frame and lets the frame through.
\<close>

definition passes_chain :: "sk_buff \<Rightarrow> bool" where
  "passes_chain skb \<longleftrightarrow>
     load_half skb off_h_proto = Some ETH_P_IP \<and>
     load_byte skb (ETH_HLEN + off_protocol) = Some IPPROTO_UDP \<and>
     (case load_half skb (DNS_OFF + off_flags) of
        None \<Rightarrow> False | Some v \<Rightarrow> \<not> qr (set_flags v)) \<and>
     load_half skb (DNS_OFF + off_qdcount) = Some 1 \<and>
     load_half skb (DNS_OFF + off_ancount) = Some 0 \<and>
     load_half skb (DNS_OFF + off_nscount) = Some 0"

definition chain_loads :: "access list" where
  "chain_loads =
     [Ld_Half off_h_proto, Ld_Byte (ETH_HLEN + off_protocol), Ld_Half (DNS_OFF + off_flags),
      Ld_Half (DNS_OFF + off_qdcount), Ld_Half (DNS_OFF + off_ancount),
      Ld_Half (DNS_OFF + off_nscount)]"

text \<open>
  The QR and RA bits of the DNS header as RFC 1035 section 4.1.1 places them on the wire:
  QR is the most significant bit of the first flags byte, RA the most significant bit of
  the second.
\<close>

definition wire_qr :: "sk_buff \<Rightarrow> bool" where
  "wire_qr skb =
     (case load_byte skb (DNS_OFF + off_flags) of None \<Rightarrow> False | Some b \<Rightarrow> bit b 7)"

definition wire_ra :: "sk_buff \<Rightarrow> bool" where
  "wire_ra skb =
     (case load_byte skb (DNS_OFF + off_flags + 1) of None \<Rightarrow> False | Some b \<Rightarrow> bit b 7)"

text \<open>
  The end of the encoded name: the offset, past the DNS header, of the zero-length label
  that ends the chain of labels starting at offset \<open>i\<close>; \<open>None\<close> when the chain leaves
  the frame first. The encoded name length of a frame is \<open>encoded_name_end skb 0\<close>.
\<close>

function encoded_name_end :: "sk_buff \<Rightarrow> nat \<Rightarrow> nat option" where
  "encoded_name_end skb i =
     (case load_byte skb (DNS_OFF + sizeof_dnshdr + i) of
        None \<Rightarrow> None
      | Some label_len \<Rightarrow>
          if label_len = 0 then Some i else encoded_name_end skb (i + unat label_len + 1))"
  by pat_completeness auto
termination
  by (relation "measure (\<lambda>(skb, i). length (data skb) - i)")
     (auto simp: load_byte_def split: if_splits)

declare encoded_name_end.simps [simp del]

text \<open>
  The direct additive jump of the specification, the loop the source comment calls the
  simple solution: the same \<^verbatim>\<open>for\<close> loop with \<^verbatim>\<open>i += label_len\<close> in place of the
  skip counter, so that the index moves on by the label length plus one at each length
  byte. It gives the packet reads and the final index.
\<close>

function additive_jump :: "nat \<Rightarrow> sk_buff \<Rightarrow> nat \<Rightarrow> access list \<times> nat option" where
  "additive_jump M skb i =
     (if i < M then
        (case load_byte skb (DNS_OFF + sizeof_dnshdr + i) of
           None \<Rightarrow> ([Ld_Byte (DNS_OFF + sizeof_dnshdr + i)], None)
         | Some label_len \<Rightarrow>
             if label_len = 0 then ([Ld_Byte (DNS_OFF + sizeof_dnshdr + i)], Some i)
             else (case additive_jump M skb (i + unat label_len + 1) of
                     (t, r) \<Rightarrow> (Ld_Byte (DNS_OFF + sizeof_dnshdr + i) # t, r)))
      else ([], Some i))"
  by pat_completeness auto
termination
  by (relation "measure (\<lambda>(M, skb, i). M - i)") auto

declare additive_jump.simps [simp del]

definition name_len_additive :: "nat \<Rightarrow> sk_buff \<Rightarrow> nat option" where
  "name_len_additive M skb = map_option (capped_len M) (snd (additive_jump M skb 0))"

section \<open>The seccomp audit probe (audit-seccomp.c)\<close>

subsection \<open>Build parameters and records\<close>

text \<open>
  \<^verbatim>\<open>WITH_FILTER\<close> is a compile-time switch. \<^verbatim>\<open>struct event\<close> is declared in
  \<^verbatim>\<open>audit-seccomp.h\<close> and \<^verbatim>\<open>struct container\<close> in the shared map header; the sizes
  of the command-name buffer and of the container snapshot are parameters of the build.
  A container snapshot is kept as its bytes.
\<close>

record build =
  WITH_FILTER :: bool
  sizeof_comm :: nat
  sizeof_container :: nat

record event =
  pid :: "32 word"
  mntns_id :: "64 word"
  syscall :: "64 word"
  code :: "32 word"
  comm :: "8 word list"
  container :: "8 word list"

text \<open>
  The disposition code is a C \<^verbatim>\<open>int\<close>: a 32-bit word, read as a signed value with
  \<open>sint\<close>.
\<close>

text \<open>The argument registers of the probed function (\<^verbatim>\<open>PT_REGS_PARM1\<close> to 3).\<close>

record pt_regs =
  parm1 :: "64 word"
  parm2 :: "64 word"
  parm3 :: "64 word"

text \<open>
  What the probe reads of the current task: the inode number of its mount namespace
  (\<open>None\<close> when the chain \<^verbatim>\<open>task->nsproxy->mnt_ns\<close> cannot be read), the value of
  \<^verbatim>\<open>bpf_get_current_pid_tgid\<close> and the command name.
\<close>

record task_struct =
  mnt_ns_inum :: "32 word option"
  pid_tgid :: "64 word"
  task_comm :: "8 word list"

text \<open>
  The maps: the admission filter, the enrichment table \<^verbatim>\<open>containers\<close> and the per-CPU
  array \<^verbatim>\<open>tmp_event\<close> of this CPU.
\<close>

record maps =
  filter_map :: "64 word \<rightharpoonup> 32 word"
  containers :: "64 word \<rightharpoonup> 8 word list"
  tmp_event :: "32 word \<rightharpoonup> event"

text \<open>The helper calls of a run that touch a map or the event channel, in program order.\<close>

datatype helper_call =
    Lookup_filter "64 word"
  | Lookup_tmp_event "32 word"
  | Lookup_containers "64 word"
  | Perf_event_output event

subsection \<open>Helpers\<close>

text \<open>
  \<^verbatim>\<open>BPF_CORE_READ(task, nsproxy, mnt_ns, ns.inum)\<close> yields 0 when a read of the chain
  fails; the 32-bit inode number is widened to \<^verbatim>\<open>__u64\<close>.
\<close>

definition core_read_mntns :: "task_struct \<Rightarrow> 64 word" where
  "core_read_mntns task = (case mnt_ns_inum task of None \<Rightarrow> 0 | Some n \<Rightarrow> ucast n)"

text \<open>
  \<^verbatim>\<open>bpf_get_current_comm(buf, size)\<close>: the command name up to its first zero byte, cut to
  \<open>size - 1\<close> bytes and padded with zero bytes to \<open>size\<close>.
\<close>

definition bpf_get_current_comm :: "task_struct \<Rightarrow> nat \<Rightarrow> 8 word list" where
  "bpf_get_current_comm task sz =
     (let s = take (sz - 1) (takeWhile (\<lambda>c. c \<noteq> 0) (task_comm task))
      in s @ replicate (sz - length s) 0)"

text \<open>
  \<^verbatim>\<open>bpf_probe_read_kernel(dst, size, src)\<close> of a map value: \<open>size\<close> bytes of it.
\<close>

definition bpf_probe_read_kernel :: "nat \<Rightarrow> 8 word list \<Rightarrow> 8 word list" where
  "bpf_probe_read_kernel sz src = take sz src"

subsection \<open>The probe\<close>

text \<open>
  \<^verbatim>\<open>kprobe__audit_seccomp\<close> gives its return value, the helper calls of the run and the
  maps after the run. The event is built in place in the slot of \<^verbatim>\<open>tmp_event\<close>.
\<close>

definition kprobe__audit_seccomp ::
  "build \<Rightarrow> pt_regs \<Rightarrow> task_struct \<Rightarrow> maps \<Rightarrow> int \<times> helper_call list \<times> maps" where
  "kprobe__audit_seccomp b ctx task m =
     (let syscall_nr = parm1 ctx;
          code_v = (ucast (parm3 ctx) :: 32 word);
          mntns = core_read_mntns task
      in
      if mntns = 0 then (0, [], m)
      else if WITH_FILTER b \<and> filter_map m mntns = None then (0, [Lookup_filter mntns], m)
      else
        let pre = (if WITH_FILTER b then [Lookup_filter mntns] else []) in
        (case tmp_event m 0 of
           None \<Rightarrow> (0, pre @ [Lookup_tmp_event 0], m)
         | Some slot \<Rightarrow>
             let ev = slot\<lparr>pid := ucast (pid_tgid task),
                           mntns_id := mntns,
                           syscall := syscall_nr,
                           code := code_v,
                           comm := bpf_get_current_comm task (sizeof_comm b)\<rparr>;
                 ev' = (case containers m mntns of
                          Some container_entry \<Rightarrow>
                            ev\<lparr>container :=
                                 bpf_probe_read_kernel (sizeof_container b) container_entry\<rparr>
                        | None \<Rightarrow> ev\<lparr>container := replicate (sizeof_container b) 0\<rparr>)
             in (0,
                 pre @ [Lookup_tmp_event 0, Lookup_containers mntns, Perf_event_output ev'],
                 m\<lparr>tmp_event := (tmp_event m)(0 \<mapsto> ev')\<rparr>)))"

definition audit_calls :: "int \<times> helper_call list \<times> maps \<Rightarrow> helper_call list" where
  "audit_calls r = fst (snd r)"

text \<open>The events a run hands to the channel.\<close>

fun emitted :: "helper_call list \<Rightarrow> event list" where
  "emitted [] = []"
| "emitted (Perf_event_output ev # cs) = ev # emitted cs"
| "emitted (c # cs) = emitted cs"

section \<open>Concrete inputs\<close>

text \<open>Inputs of the audit probe on which the theorems below are instantiated.\<close>

definition task0 :: task_struct where
  "task0 = \<lparr>mnt_ns_inum = Some 0, pid_tgid = 0x0000002A0000002B, task_comm = [0x73, 0x68, 0]\<rparr>"

definition task7 :: task_struct where
  "task7 = \<lparr>mnt_ns_inum = Some 7, pid_tgid = 0x0000002A0000002B, task_comm = [0x73, 0x68, 0]\<rparr>"

definition build_f :: build where
  "build_f = \<lparr>WITH_FILTER = True, sizeof_comm = 4, sizeof_container = 3\<rparr>"

definition build_nf :: build where
  "build_nf = \<lparr>WITH_FILTER = False, sizeof_comm = 4, sizeof_container = 3\<rparr>"

definition regs0 :: pt_regs where
  "regs0 = \<lparr>parm1 = 59, parm2 = 0, parm3 = 0xFFFFFFFF\<rparr>"

definition stale_event :: event where
  "stale_event =
     \<lparr>pid = 9, mntns_id = 9, syscall = 9, code = 9, comm = [9, 9, 9, 9], container = [9, 9, 9]\<rparr>"

definition maps_hit :: maps where
  "maps_hit =
     \<lparr>filter_map = [7 \<mapsto> 0], containers = [7 \<mapsto> [1, 2, 3]], tmp_event = [0 \<mapsto> stale_event]\<rparr>"

definition maps_miss :: maps where
  "maps_miss =
     \<lparr>filter_map = Map.empty, containers = Map.empty, tmp_event = [0 \<mapsto> stale_event]\<rparr>"

text \<open>
  Frames for the DNS probe: an Ethernet, IPv4 and UDP header in front of a DNS header with
  the two flags bytes given, one question, no answer and no authority record, and the
  bytes that follow the DNS header.
\<close>

definition eth_ip_udp :: "8 word list" where
  "eth_ip_udp =
     [0, 0, 0, 0, 0, 0, 0, 0, 0, 0, 0, 0, 0x08, 0x00,
      0x45, 0, 0, 0, 0, 0, 0, 0, 0x40, 17, 0, 0, 10, 0, 0, 1, 10, 0, 0, 2,
      0x30, 0x39, 0, 53, 0, 0, 0, 0]"

definition dns_frame :: "8 word \<Rightarrow> 8 word \<Rightarrow> 8 word list \<Rightarrow> sk_buff" where
  "dns_frame f0 f1 rest =
     \<lparr>data = eth_ip_udp @ [0x12, 0x34, f0, f1, 0, 1, 0, 0, 0, 0, 0, 0] @ rest, pkt_type = 4\<rparr>"

text \<open>A query for the name with the labels a and b, type A, class IN, recursion desired.\<close>

definition query_ab :: sk_buff where
  "query_ab = dns_frame 0x01 0x00 [1, 0x61, 1, 0x62, 0, 0, 1, 0, 1]"

text \<open>
  A response (QR set) with RD set, RA clear and response code 5 (refused), as a server
  that offers no recursion sends it: the question is repeated, no record follows.
\<close>

definition refused_response :: sk_buff where
  "refused_response = dns_frame 0x81 0x05 [1, 0x61, 0, 0, 1, 0, 1]"

text \<open>A query for the root name, type NS, and the same frame cut off after the name.\<close>

definition root_query :: sk_buff where
  "root_query = dns_frame 0x01 0x00 [0, 0, 2, 0, 1]"

definition truncated_root :: sk_buff where
  "truncated_root = dns_frame 0x01 0x00 [0]"



section \<open>Basic facts\<close>

lemmas dns_consts =
  ETH_HLEN_def sizeof_iphdr_def sizeof_udphdr_def sizeof_dnshdr_def DNS_OFF_def
  ETH_P_IP_def IPPROTO_UDP_def off_h_proto_def off_protocol_def off_flags_def
  off_qdcount_def off_ancount_def off_nscount_def

lemma replicate_2: "replicate 2 x = [x, x]"
  by (simp add: numeral_2_eq_2)

lemma replicate_3: "replicate 3 x = [x, x, x]"
  by (simp add: numeral_3_eq_3)

lemma emitted_append [simp]: "emitted (xs @ ys) = emitted xs @ emitted ys"
  by (induction xs rule: emitted.induct) simp_all

section \<open>The audit probe: claims\<close>

text \<open>
  Claim C4. When the resolved mount-namespace identifier is 0, the probe returns at once:
  it returns 0, makes no helper call on a map or on the event channel (no filter lookup,
  no scratch-slot lookup, no output) and leaves the maps, the scratch slot among them, as
  they were.
\<close>

theorem audit_sentinel_no_effect:
  "core_read_mntns task = 0 \<Longrightarrow> kprobe__audit_seccomp b ctx task m = (0, [], m)"
  by (simp add: kprobe__audit_seccomp_def)

theorem audit_sentinel_no_effect_witness:
  "core_read_mntns task0 = 0 \<and>
   kprobe__audit_seccomp build_f regs0 task0 maps_hit = (0, [], maps_hit)"
  using audit_sentinel_no_effect [of task0 build_f regs0 maps_hit]
  by (simp add: core_read_mntns_def task0_def)

text \<open>
  Claim C8. Built with the admission filter, the probe on a nonzero namespace identifier
  that is not a key of the filter returns at once after the filter lookup: no scratch-slot
  lookup, no event, the maps unchanged, whatever the other inputs are. Built without the
  filter, the probe makes no filter lookup, and on every nonzero namespace identifier it
  goes straight to the scratch slot and, when the slot is there, hands one event to the
  channel.
\<close>

theorem audit_filter:
  "(WITH_FILTER b \<and> core_read_mntns task \<noteq> 0 \<and> filter_map m (core_read_mntns task) = None
      \<longrightarrow> kprobe__audit_seccomp b ctx task m = (0, [Lookup_filter (core_read_mntns task)], m)) \<and>
   (\<not> WITH_FILTER b \<longrightarrow>
      (\<forall>k. Lookup_filter k \<notin> set (audit_calls (kprobe__audit_seccomp b ctx task m))) \<and>
      (core_read_mntns task \<noteq> 0 \<longrightarrow>
         hd (audit_calls (kprobe__audit_seccomp b ctx task m)) = Lookup_tmp_event 0 \<and>
         (tmp_event m 0 \<noteq> None \<longrightarrow>
            length (emitted (audit_calls (kprobe__audit_seccomp b ctx task m))) = 1)))"
  by (auto simp: kprobe__audit_seccomp_def audit_calls_def Let_def split: option.splits)

theorem audit_filter_witness:
  "kprobe__audit_seccomp build_f regs0 task7 maps_miss = (0, [Lookup_filter 7], maps_miss) \<and>
   length (emitted (audit_calls (kprobe__audit_seccomp build_nf regs0 task7 maps_miss))) = 1"
  using audit_filter [of build_f task7 maps_miss regs0]
        audit_filter [of build_nf task7 maps_miss regs0]
  by (simp add: core_read_mntns_def task7_def build_f_def build_nf_def maps_miss_def)

text \<open>
  Claim C3. The probe hands an event to the channel exactly when the namespace identifier
  is nonzero, the filter (if built in) admits it and the scratch slot is there; whether the
  enrichment table has the identifier plays no part in that. In every event handed over,
  the container field is the stored snapshot, byte for byte, when the table has the
  identifier (the snapshot having the size of the field), and all zero bytes when it has
  not; the other fields hold the process id, the namespace identifier, the syscall number,
  the disposition code and the command name of this firing.
\<close>

theorem audit_enrichment:
  "(emitted (audit_calls (kprobe__audit_seccomp b ctx task m)) \<noteq> [] \<longleftrightarrow>
      core_read_mntns task \<noteq> 0 \<and>
      (WITH_FILTER b \<longrightarrow> filter_map m (core_read_mntns task) \<noteq> None) \<and>
      tmp_event m 0 \<noteq> None) \<and>
   (\<forall>ev \<in> set (emitted (audit_calls (kprobe__audit_seccomp b ctx task m))).
      (case containers m (core_read_mntns task) of
         Some snap \<Rightarrow> container ev = take (sizeof_container b) snap \<and>
                      (length snap = sizeof_container b \<longrightarrow> container ev = snap)
       | None \<Rightarrow> container ev = replicate (sizeof_container b) 0) \<and>
      pid ev = ucast (pid_tgid task) \<and>
      mntns_id ev = core_read_mntns task \<and>
      syscall ev = parm1 ctx \<and>
      code ev = ucast (parm3 ctx) \<and>
      comm ev = bpf_get_current_comm task (sizeof_comm b))"
  by (auto simp: kprobe__audit_seccomp_def audit_calls_def Let_def bpf_probe_read_kernel_def
           split: option.splits)

theorem audit_enrichment_witness:
  "emitted (audit_calls (kprobe__audit_seccomp build_f regs0 task7 maps_hit)) =
     [\<lparr>pid = 0x2B, mntns_id = 7, syscall = 59, code = 0xFFFFFFFF, comm = [0x73, 0x68, 0, 0],
       container = [1, 2, 3]\<rparr>] \<and>
   emitted (audit_calls (kprobe__audit_seccomp build_nf regs0 task7 maps_miss)) =
     [\<lparr>pid = 0x2B, mntns_id = 7, syscall = 59, code = 0xFFFFFFFF, comm = [0x73, 0x68, 0, 0],
       container = [0, 0, 0]\<rparr>]"
  using audit_enrichment [of build_f regs0 task7 maps_hit]
        audit_enrichment [of build_nf regs0 task7 maps_miss]
  by (simp add: kprobe__audit_seccomp_def audit_calls_def core_read_mntns_def task7_def
        build_f_def build_nf_def maps_hit_def maps_miss_def regs0_def stale_event_def
        bpf_get_current_comm_def bpf_probe_read_kernel_def Let_def replicate_2 replicate_3)

section \<open>The DNS probe: facts\<close>

subsection \<open>Half words\<close>

lemma qr_set_flags: "qr (set_flags v) = bit v 7"
  by (simp add: qr_def set_flags_def bit_simps)

lemma ra_set_flags: "ra (set_flags v) = bit v 15"
  by (simp add: ra_def set_flags_def bit_simps)

lemma half_bit7:
  "bit (push_bit 8 (ucast (a :: 8 word)) OR ucast (b :: 8 word) :: 16 word) 7 = bit b 7"
  by (simp add: bit_simps)

lemma half_bit15:
  "bit (push_bit 8 (ucast (a :: 8 word)) OR ucast (b :: 8 word) :: 16 word) 15 = bit a 7"
  by (auto simp: bit_simps dest: bit_imp_le_length)




subsection \<open>The loop\<close>





lemma skip_refines:
  "i \<le> M \<Longrightarrow>
   (case label_loop M skb i skip of (n, t, r) \<Rightarrow> (t, map_option (capped_len M) r)) =
   (case additive_jump M skb (i + skip) of (t, r) \<Rightarrow> (t, map_option (capped_len M) r))"
proof (induction M skb i skip rule: label_loop.induct)
  case (1 M skb i skip)
  show ?case
  proof (cases "i < M")
    case False
    with "1.prems" have "i = M" by simp
    then show ?thesis
      by (subst label_loop.simps, subst additive_jump.simps) (simp add: capped_len_def)
  next
    case True
    show ?thesis
    proof (cases "skip = 0")
      case False
      with True "1.IH"(1) show ?thesis
        by (subst label_loop.simps) (auto split: prod.splits)
    next
      case True
      note sk = this
      show ?thesis
      proof (cases "load_byte skb (DNS_OFF + sizeof_dnshdr + i)")
        case None
        with \<open>i < M\<close> sk show ?thesis
          by (subst label_loop.simps, subst additive_jump.simps) simp
      next
        case (Some l)
        show ?thesis
        proof (cases "l = 0")
          case True
          with \<open>i < M\<close> sk Some show ?thesis
            by (subst label_loop.simps, subst additive_jump.simps) simp
        next
          case False
          with \<open>i < M\<close> sk Some "1.IH"(2)[of l] show ?thesis
            by (subst label_loop.simps, subst additive_jump.simps)
               (auto split: prod.splits simp: add.assoc add.commute)
        qed
      qed
    qed
  qed
qed

lemma encoded_name_end_ge: "encoded_name_end skb i = Some p \<Longrightarrow> i \<le> p"
proof (induction skb i rule: encoded_name_end.induct)
  case (1 skb i)
  from "1.prems" show ?case
    apply (subst (asm) encoded_name_end.simps)
    apply (auto split: option.splits if_splits dest!: "1.IH")
    done
qed

lemma label_loop_name_end:
  "encoded_name_end skb (i + skip) = Some p \<Longrightarrow> i \<le> M \<Longrightarrow>
   snd (snd (label_loop M skb i skip)) = Some (capped_len M p)"
proof (induction M skb i skip rule: label_loop.induct)
  case (1 M skb i skip)
  show ?case
  proof (cases "i < M")
    case False
    with "1.prems" have "i = M" by simp
    moreover have "M \<le> p" using encoded_name_end_ge [OF "1.prems"(1)] \<open>i = M\<close> by simp
    ultimately show ?thesis
      by (subst label_loop.simps) (simp add: capped_len_def)
  next
    case True
    note lt = this
    show ?thesis
    proof (cases "skip = 0")
      case False
      with lt "1.prems" "1.IH"(1) show ?thesis
        by (subst label_loop.simps) (auto split: prod.splits)
    next
      case True
      note sk = this
      from "1.prems"(1) sk have ne: "encoded_name_end skb i = Some p" by simp
      show ?thesis
      proof (cases "load_byte skb (DNS_OFF + sizeof_dnshdr + i)")
        case None
        with ne show ?thesis
          by (subst (asm) encoded_name_end.simps) simp
      next
        case (Some l)
        show ?thesis
        proof (cases "l = 0")
          case True
          with ne Some have "p = i" by (subst (asm) encoded_name_end.simps) simp
          with lt sk Some True show ?thesis
            by (subst label_loop.simps) (simp add: capped_len_def)
        next
          case False
          with ne Some have "encoded_name_end skb (i + 1 + unat l) = Some p"
            by (subst (asm) encoded_name_end.simps) (simp add: add.assoc add.commute)
          with False lt sk Some "1.IH"(2) [of l] show ?thesis
            by (subst label_loop.simps) (auto split: prod.splits)
        qed
      qed
    qed
  qed
qed


subsection \<open>The probe\<close>

lemma bpf_prog1_pass:
  "passes_chain skb \<Longrightarrow>
   bpf_prog1 M skb = (chain_loads @ fst (capture M skb), snd (capture M skb))"
  by (auto simp: passes_chain_def bpf_prog1_def ld_half_def ld_byte_def chain_loads_def
           split: option.splits prod.splits)

lemma bpf_prog1_fail:
  "\<not> passes_chain skb \<Longrightarrow>
   snd (bpf_prog1 M skb) = None \<and> prefix (fst (bpf_prog1 M skb)) chain_loads \<and>
   fst (bpf_prog1 M skb) \<noteq> []"
  by (auto simp: passes_chain_def bpf_prog1_def ld_half_def ld_byte_def chain_loads_def ret0_def
           split: option.splits prod.splits)


lemma dns_event_Some_iff:
  "dns_event M skb = Some ev \<longleftrightarrow> passes_chain skb \<and> snd (capture M skb) = Some ev"
  using bpf_prog1_pass [of skb M] bpf_prog1_fail [of skb M]
  by (cases "passes_chain skb") (auto simp: dns_event_def)

lemma capped_len_le: "capped_len M i \<le> M"
  by (simp add: capped_len_def)

lemma capture_Some:
  "snd (capture M skb) = Some ev \<longleftrightarrow>
   (\<exists>i. snd (snd (label_loop M skb 0 0)) = Some i \<and>
        DNS_OFF + sizeof_dnshdr + capped_len M i + 3 \<le> length (data skb) \<and>
        ev = \<lparr>name = take (capped_len M i) (drop (DNS_OFF + sizeof_dnshdr) (data skb)) @
                      replicate (M - capped_len M i) 0,
              ev_pkt_type = pkt_type skb,
              qtype = push_bit 8 (ucast (data skb ! (DNS_OFF + sizeof_dnshdr + capped_len M i + 1)))
                        OR ucast (data skb ! (DNS_OFF + sizeof_dnshdr + capped_len M i + 2))\<rparr>)"
  by (auto simp: capture_def traverse_def ld_bytes_def ld_half_def load_half_def
        bpf_skb_load_bytes_def zero_event_def Let_def
        split: option.splits prod.splits if_splits)



lemma run_frames_append:
  "run_frames M ch (xs @ ys) = run_frames M (run_frames M ch xs) ys"
  by (induction xs arbitrary: ch) simp_all

section \<open>The DNS probe: claims\<close>

subsection \<open>The bit the probe tests\<close>

text \<open>
  The half word of the flags arrives in host byte order, so the first byte of the union is
  the second flags byte of the wire: the bit-field \<^verbatim>\<open>qr\<close> of the union is the RA bit of
  the frame, and the QR bit of the frame is bit 15 of the half word, which the probe does
  not look at. The chain therefore lets a frame through when its RA bit is clear. When
  any of its tests fails it emits nothing, and the packet reads of the run are the first
  loads of the chain: the tests are made in the order of the source and the first that
  fails ends the run.
\<close>

lemma tested_bit_is_wire_ra:
  "load_half skb (DNS_OFF + off_flags) = Some v \<Longrightarrow> qr (set_flags v) = wire_ra skb"
  by (auto simp: load_half_def load_byte_def wire_ra_def qr_set_flags half_bit7
           split: if_splits)

lemma wire_qr_is_bit15:
  "load_half skb (DNS_OFF + off_flags) = Some v \<Longrightarrow> wire_qr skb = bit v 15"
  by (auto simp: load_half_def load_byte_def wire_qr_def half_bit15 split: if_splits)

lemma chain_rejects:
  "load_half skb off_h_proto \<noteq> Some ETH_P_IP \<or>
   load_byte skb (ETH_HLEN + off_protocol) \<noteq> Some IPPROTO_UDP \<or>
   wire_ra skb \<or>
   load_half skb (DNS_OFF + off_qdcount) \<noteq> Some 1 \<or>
   load_half skb (DNS_OFF + off_ancount) \<noteq> Some 0 \<or>
   load_half skb (DNS_OFF + off_nscount) \<noteq> Some 0 \<Longrightarrow>
   dns_event M skb = None \<and> prefix (dns_loads M skb) chain_loads \<and> dns_loads M skb \<noteq> []"
proof -
  assume a: "load_half skb off_h_proto \<noteq> Some ETH_P_IP \<or>
   load_byte skb (ETH_HLEN + off_protocol) \<noteq> Some IPPROTO_UDP \<or>
   wire_ra skb \<or>
   load_half skb (DNS_OFF + off_qdcount) \<noteq> Some 1 \<or>
   load_half skb (DNS_OFF + off_ancount) \<noteq> Some 0 \<or>
   load_half skb (DNS_OFF + off_nscount) \<noteq> Some 0"
  have "\<not> passes_chain skb"
  proof
    assume p: "passes_chain skb"
    then obtain v where v: "load_half skb (DNS_OFF + off_flags) = Some v" "\<not> qr (set_flags v)"
      by (auto simp: passes_chain_def split: option.splits)
    from tested_bit_is_wire_ra [OF v(1)] v(2) have "\<not> wire_ra skb" by simp
    with a p show False by (simp add: passes_chain_def)
  qed
  from bpf_prog1_fail [OF this, of M] show ?thesis
    by (simp add: dns_event_def dns_loads_def)
qed

subsection \<open>The traversal\<close>



text \<open>
  Claim C2. On every frame the loop with the skip counter and the direct additive jump
  give the same captured name length, both capped at \<^verbatim>\<open>MAX_DNS_NAME\<close> (and both give none
  when a read leaves the frame), and they read the same bytes of the frame in the same
  order.
\<close>

theorem skip_counter_refines_additive_jump:
  "name_len M skb = name_len_additive M skb \<and>
   fst (snd (label_loop M skb 0 0)) = fst (additive_jump M skb 0)"
  using skip_refines [of 0 M skb 0]
  by (auto simp: name_len_def name_len_additive_def split: prod.splits)

theorem skip_counter_refines_additive_jump_witness:
  "name_len 6 query_ab = Some 4 \<and> name_len_additive 6 query_ab = Some 4 \<and>
   name_len 2 query_ab = Some 2 \<and> name_len_additive 2 query_ab = Some 2"
proof -
  have h: "name_len 6 query_ab = Some 4" "name_len 2 query_ab = Some 2"
    by code_simp+
  from skip_counter_refines_additive_jump [of 6 query_ab]
       skip_counter_refines_additive_jump [of 2 query_ab] h
  show ?thesis by simp
qed

subsection \<open>The events\<close>

text \<open>
  Claim C5. The claim says that no event is emitted for a frame whose QR bit is set. The
  frame \<open>refused_response\<close> is a response: its QR bit is set, its RA bit is clear, it has
  one question and no answer or authority record. The probe emits an event for it.
\<close>

theorem response_with_ra_clear_is_captured:
  "wire_qr refused_response \<and>
   dns_event 255 refused_response =
     Some \<lparr>name = [1, 0x61] @ replicate 253 0, ev_pkt_type = 4, qtype = 1\<rparr>"
  by code_simp

text \<open>
  Claim C6. A frame with the IPv4 ethertype and the UDP protocol whose DNS header is that
  of a query (QR clear, and RA clear as in every query) with one question and no answer or
  authority record, and whose name is encoded as 1, a, 1, b, 0 and followed by the query
  type 1: the captured name length is 4, the name field of the event holds the four bytes
  1, a, 1, b followed by zero bytes up to \<^verbatim>\<open>MAX_DNS_NAME\<close>, and the query type is 1.
  \<^verbatim>\<open>MAX_DNS_NAME\<close> is at least 4.
\<close>

theorem query_a_b_event:
  assumes M: "4 \<le> M"
    and eth: "load_half skb off_h_proto = Some ETH_P_IP"
    and udp: "load_byte skb (ETH_HLEN + off_protocol) = Some IPPROTO_UDP"
    and query: "\<not> wire_qr skb" "\<not> wire_ra skb"
    and qd: "load_half skb (DNS_OFF + off_qdcount) = Some 1"
    and an: "load_half skb (DNS_OFF + off_ancount) = Some 0"
    and ns: "load_half skb (DNS_OFF + off_nscount) = Some 0"
    and nm: "take 7 (drop (DNS_OFF + sizeof_dnshdr) (data skb)) = [1, 0x61, 1, 0x62, 0, 0, 1]"
  shows "name_len M skb = Some 4 \<and>
         dns_event M skb =
           Some \<lparr>name = [1, 0x61, 1, 0x62] @ replicate (M - 4) 0,
                 ev_pkt_type = pkt_type skb, qtype = 1\<rparr>"
proof -
  have len: "61 \<le> length (data skb)"
    using arg_cong [OF nm, of length] by (simp add: dns_consts)
  have nth: "data skb ! (54 + k) = [1, 0x61, 1, 0x62, 0, 0, 1] ! k" if "k < 7" for k
  proof -
    have "take 7 (drop 54 (data skb)) ! k = data skb ! (54 + k)"
      using that len by simp
    with nm show ?thesis by (simp add: dns_consts)
  qed
  have b: "data skb ! 54 = 1" "data skb ! 56 = 1" "data skb ! 58 = 0"
          "data skb ! 59 = 0" "data skb ! 60 = 1"
    using nth [of 0] nth [of 2] nth [of 4] nth [of 5] nth [of 6] by simp_all
  have lb: "load_byte skb 54 = Some 1" "load_byte skb 56 = Some 1" "load_byte skb 58 = Some 0"
    using len b by (simp_all add: load_byte_def)
  have e4: "encoded_name_end skb 4 = Some 4"
    by (subst encoded_name_end.simps) (simp add: dns_consts lb)
  have e2: "encoded_name_end skb 2 = Some 4"
    by (subst encoded_name_end.simps) (simp add: dns_consts lb e4)
  have e: "encoded_name_end skb 0 = Some 4"
    by (subst encoded_name_end.simps) (simp add: dns_consts lb e2 [unfolded numeral_2_eq_2])
  obtain v where v: "load_half skb (DNS_OFF + off_flags) = Some v"
    using len by (simp add: load_half_def dns_consts)
  from tested_bit_is_wire_ra [OF v] query have "\<not> qr (set_flags v)" by simp
  with v eth udp qd an ns have pc: "passes_chain skb"
    by (simp add: passes_chain_def)
  have fin: "snd (snd (label_loop M skb 0 0)) = Some 4"
    using label_loop_name_end [of skb 0 0 4 M] e M by (simp add: capped_len_def)
  then have nl: "name_len M skb = Some 4"
    using M by (simp add: name_len_def capped_len_def)
  have c4: "capped_len M 4 = 4" using M by (simp add: capped_len_def)
  have tk: "take 4 (drop 54 (data skb)) = [1, 0x61, 1, 0x62]"
  proof -
    have "take 4 (take 7 (drop 54 (data skb))) = take 4 [1, 0x61, 1, 0x62, 0, 0, 1]"
      using nm by (simp add: dns_consts)
    then show ?thesis by simp
  qed
  have "snd (capture M skb) =
      Some \<lparr>name = [1, 0x61, 1, 0x62] @ replicate (M - 4) 0,
            ev_pkt_type = pkt_type skb, qtype = 1\<rparr>"
    unfolding capture_Some
    using fin len c4 tk b by (simp add: dns_consts)
  with pc nl show ?thesis by (simp add: dns_event_Some_iff)
qed

theorem query_a_b_event_witness:
  "name_len 255 query_ab = Some 4 \<and>
   dns_event 255 query_ab =
     Some \<lparr>name = [1, 0x61, 1, 0x62] @ replicate 251 0, ev_pkt_type = 4, qtype = 1\<rparr>"
proof -
  have "(4::nat) \<le> 255" by simp
  moreover have "load_half query_ab off_h_proto = Some ETH_P_IP" by code_simp
  moreover have "load_byte query_ab (ETH_HLEN + off_protocol) = Some IPPROTO_UDP" by code_simp
  moreover have "\<not> wire_qr query_ab" by code_simp
  moreover have "\<not> wire_ra query_ab" by code_simp
  moreover have "load_half query_ab (DNS_OFF + off_qdcount) = Some 1" by code_simp
  moreover have "load_half query_ab (DNS_OFF + off_ancount) = Some 0" by code_simp
  moreover have "load_half query_ab (DNS_OFF + off_nscount) = Some 0" by code_simp
  moreover have "take 7 (drop (DNS_OFF + sizeof_dnshdr) (data query_ab)) =
      [1, 0x61, 1, 0x62, 0, 0, 1]" by code_simp
  ultimately have "name_len 255 query_ab = Some 4 \<and>
      dns_event 255 query_ab =
        Some \<lparr>name = [1, 0x61, 1, 0x62] @ replicate (255 - 4) 0,
              ev_pkt_type = pkt_type query_ab, qtype = 1\<rparr>"
    by (rule query_a_b_event)
  then show ?thesis by (simp add: query_ab_def dns_frame_def)
qed




text \<open>
  Claim C9, as amended. On a frame that passes the validation chain and whose traversal
  gives the captured length 0: when the frame holds the two bytes of the query type after
  the terminator, the probe emits an event, whose name field is all zero bytes, whose
  packet type is that of the frame and whose query type is the half word after the
  terminator; when the frame ends before those two bytes, the probe emits no event.
\<close>

theorem zero_length_name_emitted:
  assumes pc: "passes_chain skb"
    and z: "name_len M skb = Some 0"
  shows "(DNS_OFF + sizeof_dnshdr + 3 \<le> length (data skb) \<longrightarrow>
            (\<exists>q. load_half skb (DNS_OFF + sizeof_dnshdr + 1) = Some q \<and>
                 dns_event M skb =
                   Some \<lparr>name = replicate M 0, ev_pkt_type = pkt_type skb, qtype = q\<rparr>)) \<and>
         (length (data skb) < DNS_OFF + sizeof_dnshdr + 3 \<longrightarrow> dns_event M skb = None)"
proof (intro conjI impI)
  assume len: "DNS_OFF + sizeof_dnshdr + 3 \<le> length (data skb)"
  from z obtain i where i: "snd (snd (label_loop M skb 0 0)) = Some i" "capped_len M i = 0"
    by (auto simp: name_len_def)
  obtain q where q: "load_half skb (DNS_OFF + sizeof_dnshdr + 1) = Some q"
    using len by (simp add: load_half_def)
  have "snd (capture M skb) =
      Some \<lparr>name = replicate M 0, ev_pkt_type = pkt_type skb, qtype = q\<rparr>"
    unfolding capture_Some
    using i len q by (auto simp: load_half_def)
  with pc q show "\<exists>q. load_half skb (DNS_OFF + sizeof_dnshdr + 1) = Some q \<and>
                 dns_event M skb =
                   Some \<lparr>name = replicate M 0, ev_pkt_type = pkt_type skb, qtype = q\<rparr>"
    by (simp add: dns_event_Some_iff)
next
  assume short: "length (data skb) < DNS_OFF + sizeof_dnshdr + 3"
  show "dns_event M skb = None"
  proof (cases "dns_event M skb")
    case None
    then show ?thesis .
  next
    case (Some ev)
    then have "snd (capture M skb) = Some ev" by (simp add: dns_event_Some_iff)
    then obtain i where i: "snd (snd (label_loop M skb 0 0)) = Some i"
      and len: "DNS_OFF + sizeof_dnshdr + capped_len M i + 3 \<le> length (data skb)"
      unfolding capture_Some by blast
    from i z have "capped_len M i = 0" by (simp add: name_len_def)
    with len short show ?thesis by simp
  qed
qed

theorem zero_length_name_emitted_witness:
  "passes_chain root_query \<and> name_len 255 root_query = Some 0 \<and>
   dns_event 255 root_query =
     Some \<lparr>name = replicate 255 0, ev_pkt_type = 4, qtype = 2\<rparr> \<and>
   passes_chain (dns_frame 0x01 0x00 [0, 0]) \<and>
   name_len 255 (dns_frame 0x01 0x00 [0, 0]) = Some 0 \<and>
   dns_event 255 (dns_frame 0x01 0x00 [0, 0]) = None"
proof -
  have h: "passes_chain root_query" "name_len 255 root_query = Some 0"
    "DNS_OFF + sizeof_dnshdr + 3 \<le> length (data root_query)"
    "load_half root_query (DNS_OFF + sizeof_dnshdr + 1) = Some 2"
    "pkt_type root_query = 4"
    by code_simp+
  have g: "passes_chain (dns_frame 0x01 0x00 [0, 0])"
    "name_len 255 (dns_frame 0x01 0x00 [0, 0]) = Some 0"
    "length (data (dns_frame 0x01 0x00 [0, 0])) < DNS_OFF + sizeof_dnshdr + 3"
    by code_simp+
  from zero_length_name_emitted [OF h(1,2)] zero_length_name_emitted [OF g(1,2)] h g
  show ?thesis by auto
qed

text \<open>
  Without the two bytes of the query type the claim fails: the frame \<open>truncated_root\<close>
  ends with the terminator, passes the validation chain and has the captured length 0,
  and the load of the query type ends the program before the output.
\<close>

theorem zero_length_name_counterexample:
  "passes_chain truncated_root \<and> name_len 255 truncated_root = Some 0 \<and>
   dns_event 255 truncated_root = None"
  by code_simp

text \<open>
  Claim C10. In every event the probe emits the name field has \<^verbatim>\<open>MAX_DNS_NAME\<close> bytes:
  the first bytes, as many as the captured length, are those of the frame after the DNS
  header, and every byte from the captured length on is zero; the packet type is that of
  the socket buffer. The event is a function of the socket buffer alone: whatever frames
  the probe has run on before, and whatever the channel holds, a run on a frame appends the
  event of that frame and nothing else, so two runs on the same frame give the same event.
\<close>

theorem event_from_frame_alone:
  "(dns_event M skb = Some ev \<longrightarrow>
      length (name ev) = M \<and> ev_pkt_type ev = pkt_type skb \<and>
      (\<exists>len. name_len M skb = Some len \<and> len \<le> M \<and>
         take len (name ev) = take len (drop (DNS_OFF + sizeof_dnshdr) (data skb)) \<and>
         (\<forall>k. len \<le> k \<and> k < M \<longrightarrow> name ev ! k = 0))) \<and>
   run_frames M ch (skbs @ [skb]) =
     run_frames M ch skbs @ (case dns_event M skb of None \<Rightarrow> [] | Some e \<Rightarrow> [e])"
proof (intro conjI impI)
  assume "dns_event M skb = Some ev"
  then have "snd (capture M skb) = Some ev" by (simp add: dns_event_Some_iff)
  then obtain i where i: "snd (snd (label_loop M skb 0 0)) = Some i"
    and len: "DNS_OFF + sizeof_dnshdr + capped_len M i + 3 \<le> length (data skb)"
    and ev: "ev = \<lparr>name = take (capped_len M i) (drop (DNS_OFF + sizeof_dnshdr) (data skb)) @
                      replicate (M - capped_len M i) 0,
              ev_pkt_type = pkt_type skb,
              qtype = push_bit 8 (ucast (data skb ! (DNS_OFF + sizeof_dnshdr + capped_len M i + 1)))
                        OR ucast (data skb ! (DNS_OFF + sizeof_dnshdr + capped_len M i + 2))\<rparr>"
    unfolding capture_Some by blast
  have l: "length (take (capped_len M i) (drop (DNS_OFF + sizeof_dnshdr) (data skb))) = capped_len M i"
    using len by simp
  show "length (name ev) = M"
    using l capped_len_le [of M i] by (simp add: ev del: length_take)
  show "ev_pkt_type ev = pkt_type skb" by (simp add: ev)
  have "name_len M skb = Some (capped_len M i)" using i by (simp add: name_len_def)
  moreover have "take (capped_len M i) (name ev) =
      take (capped_len M i) (drop (DNS_OFF + sizeof_dnshdr) (data skb))"
    using l by (simp add: ev del: length_take)
  moreover have "\<forall>k. capped_len M i \<le> k \<and> k < M \<longrightarrow> name ev ! k = 0"
    using l by (auto simp: ev nth_append simp del: length_take)
  ultimately show "\<exists>len. name_len M skb = Some len \<and> len \<le> M \<and>
         take len (name ev) = take len (drop (DNS_OFF + sizeof_dnshdr) (data skb)) \<and>
         (\<forall>k. len \<le> k \<and> k < M \<longrightarrow> name ev ! k = 0)"
    using capped_len_le [of M i] by blast
next
  show "run_frames M ch (skbs @ [skb]) =
     run_frames M ch skbs @ (case dns_event M skb of None \<Rightarrow> [] | Some e \<Rightarrow> [e])"
    by (simp add: run_frames_append split: option.splits)
qed

theorem event_from_frame_alone_witness:
  "dns_event 6 query_ab =
     Some \<lparr>name = [1, 0x61, 1, 0x62, 0, 0], ev_pkt_type = 4, qtype = 1\<rparr> \<and>
   name_len 6 query_ab = Some 4 \<and>
   run_frames 6 [] [refused_response, query_ab, query_ab] =
     run_frames 6 [] [refused_response, query_ab] @
       [\<lparr>name = [1, 0x61, 1, 0x62, 0, 0], ev_pkt_type = 4, qtype = 1\<rparr>]"
proof -
  have h: "dns_event 6 query_ab =
     Some \<lparr>name = [1, 0x61, 1, 0x62, 0, 0], ev_pkt_type = 4, qtype = 1\<rparr>"
    "name_len 6 query_ab = Some 4"
    by code_simp+
  from event_from_frame_alone
         [of 6 query_ab "\<lparr>name = [1, 0x61, 1, 0x62, 0, 0], ev_pkt_type = 4, qtype = 1\<rparr>"
             "[]" "[refused_response, query_ab]"] h
  show ?thesis by simp
qed

end
